theory Spec2Isabelle
  imports Main "HOL-Library.Sublist"
begin

section \<open>Python values, exceptions and dictionaries\<close>

text \<open>
  The script \<^verbatim>\<open>scripts/pycsv.py\<close> works on the rows of a CSV stream. A cell read by
  \<^verbatim>\<open>csv.reader\<close> is a \<^verbatim>\<open>str\<close>; \<^verbatim>\<open>csv.DictReader\<close> adds \<^verbatim>\<open>None\<close> (its
  \<^verbatim>\<open>restval\<close>, for a column the row is too short to reach) and a list of strings (the
  surplus cells of a row that is too long, stored under the key \<^verbatim>\<open>restkey = None\<close>).
\<close>

datatype pyval = PyNone | PyStr string | PyList "string list"

text \<open>The exceptions that the statements of the script can raise.\<close>

datatype error = TypeError | KeyError pyval | ValueError | OSError

text \<open>
  A \<^verbatim>\<open>dict\<close> keeps its keys in insertion order; storing under a key that is present
  replaces the value in place.
\<close>

type_synonym pydict = "(pyval \<times> pyval) list"

fun dict_setitem :: "pydict \<Rightarrow> pyval \<Rightarrow> pyval \<Rightarrow> pydict" where
  "dict_setitem [] k v = [(k, v)]"
| "dict_setitem ((k', v') # d) k v =
     (if k' = k then (k, v) # d else (k', v') # dict_setitem d k v)"

text \<open>\<^verbatim>\<open>d[k]\<close>: raises \<^verbatim>\<open>KeyError\<close> when the key is absent.\<close>

definition dict_getitem :: "pydict \<Rightarrow> pyval \<Rightarrow> error + pyval" where
  "dict_getitem d k = (case map_of d k of None \<Rightarrow> Inl (KeyError k) | Some v \<Rightarrow> Inr v)"

text \<open>\<^verbatim>\<open>d.get(k, default)\<close>.\<close>

definition dict_get :: "pydict \<Rightarrow> pyval \<Rightarrow> pyval \<Rightarrow> pyval" where
  "dict_get d k dflt = (case map_of d k of None \<Rightarrow> dflt | Some v \<Rightarrow> v)"

definition dict_keys :: "pydict \<Rightarrow> pyval list" where
  "dict_keys d = map fst d"

text \<open>\<^verbatim>\<open>dict(pairs)\<close>: the pairs are stored one after the other, so a later pair wins.\<close>

definition dict_of :: "(pyval \<times> pyval) list \<Rightarrow> pydict" where
  "dict_of kvs = foldl (\<lambda>d (k, v). dict_setitem d k v) [] kvs"


section \<open>The standard library's \<^verbatim>\<open>csv.DictReader\<close>\<close>

text \<open>
  An input stream is represented by the sequence of records that \<^verbatim>\<open>csv.reader\<close> yields
  from it: one list of cells per record, the empty list for a blank line. A
  \<^verbatim>\<open>DictReader\<close> holds the records its underlying reader has yet to yield and the
  attribute \<^verbatim>\<open>_fieldnames\<close>, which is \<^verbatim>\<open>None\<close> until the header has been read.
  Splitting the text of the stream into records, and the exceptions \<^verbatim>\<open>csv.reader\<close> raises
  itself on text it cannot split, are below this model; so is the text that
  \<^verbatim>\<open>csv.writer\<close> makes of a row.
\<close>

record DictReader =
  reader :: "string list list"
  fieldnames_attr :: "string list option"

definition DictReader_init :: "string list list \<Rightarrow> DictReader" where
  "DictReader_init f = \<lparr>reader = f, fieldnames_attr = None\<rparr>"

text \<open>
  The property \<^verbatim>\<open>fieldnames\<close>: on first use it takes the next record of the underlying
  reader as the header; on an exhausted reader the \<^verbatim>\<open>StopIteration\<close> is swallowed and the
  value stays \<^verbatim>\<open>None\<close>.
\<close>

definition DictReader_fieldnames :: "DictReader \<Rightarrow> string list option \<times> DictReader" where
  "DictReader_fieldnames self =
     (case fieldnames_attr self of
        Some fs \<Rightarrow> (Some fs, self)
      | None \<Rightarrow>
          (case reader self of
             [] \<Rightarrow> (None, self)
           | h # rest \<Rightarrow> (Some h, self\<lparr>reader := rest, fieldnames_attr := Some h\<rparr>)))"

text \<open>
  \<^verbatim>\<open>row = next(self.reader)\<close> followed by \<^verbatim>\<open>while row == []: row = next(self.reader)\<close>;
  the result \<open>None\<close> is the \<^verbatim>\<open>StopIteration\<close> of the underlying reader.
\<close>

fun next_nonblank :: "string list list \<Rightarrow> (string list \<times> string list list) option" where
  "next_nonblank [] = None"
| "next_nonblank (row # rest) = (if row = [] then next_nonblank rest else Some (row, rest))"

text \<open>
  The dictionary built for one row: \<^verbatim>\<open>d = dict(zip(self.fieldnames, row))\<close>, then the
  surplus cells under \<^verbatim>\<open>restkey\<close> when the row is longer than the header, or
  \<^verbatim>\<open>restval\<close> under every header name the row does not reach when it is shorter.
\<close>

definition row_dict :: "string list \<Rightarrow> string list \<Rightarrow> pydict" where
  "row_dict fieldnames row =
     (let d = dict_of (zip (map PyStr fieldnames) (map PyStr row));
          lf = length fieldnames;
          lr = length row
      in if lf < lr then dict_setitem d PyNone (PyList (drop lf row))
         else if lf > lr then
           foldl (\<lambda>d key. dict_setitem d (PyStr key) PyNone) d (drop lr fieldnames)
         else d)"

datatype 'a iteration = StopIteration | Raised error | Yield 'a

text \<open>
  \<^verbatim>\<open>__next__\<close>. Its first statement, \<^verbatim>\<open>if self.line_num == 0: self.fieldnames\<close>, reads the
  header if that has not happened yet; evaluating the property again when the header is
  already there changes nothing. With no header (\<^verbatim>\<open>zip(None, row)\<close>) Python raises
  \<^verbatim>\<open>TypeError\<close>.
\<close>

definition DictReader_next :: "DictReader \<Rightarrow> (pydict \<times> DictReader) iteration" where
  "DictReader_next self =
     (case DictReader_fieldnames self of
        (fo, self1) \<Rightarrow>
          (case next_nonblank (reader self1) of
             None \<Rightarrow> StopIteration
           | Some (row, rest) \<Rightarrow>
               (case fo of
                  None \<Rightarrow> Raised TypeError
                | Some fieldnames \<Rightarrow>
                    Yield (row_dict fieldnames row, self1\<lparr>reader := rest\<rparr>))))"


section \<open>The standard library's \<^verbatim>\<open>csv.DictWriter\<close>\<close>

text \<open>
  Standard output is the sequence of rows handed to the underlying \<^verbatim>\<open>csv.writer\<close>, which
  writes one line per row (a string as it is, \<^verbatim>\<open>None\<close> as the empty field). The writer
  is created with the default \<^verbatim>\<open>restval = ""\<close> and \<^verbatim>\<open>extrasaction = "raise"\<close>, so it is
  determined by its \<^verbatim>\<open>fieldnames\<close>.
\<close>

type_synonym stdout = "pyval list list"

text \<open>
  \<^verbatim>\<open>_dict_to_list\<close>: a key outside \<^verbatim>\<open>fieldnames\<close> raises \<^verbatim>\<open>ValueError\<close>; otherwise the
  row is \<^verbatim>\<open>rowdict.get(key, self.restval)\<close> for each key of \<^verbatim>\<open>fieldnames\<close>.
\<close>

definition dict_to_list :: "string list \<Rightarrow> pydict \<Rightarrow> error + pyval list" where
  "dict_to_list fieldnames rowdict =
     (if \<exists>k \<in> set (dict_keys rowdict). k \<notin> set (map PyStr fieldnames) then Inl ValueError
      else Inr (map (\<lambda>key. dict_get rowdict (PyStr key) (PyStr [])) fieldnames))"

definition DictWriter_writerow :: "string list \<Rightarrow> pydict \<Rightarrow> stdout \<Rightarrow> error + stdout" where
  "DictWriter_writerow fieldnames rowdict out =
     (case dict_to_list fieldnames rowdict of
        Inl e \<Rightarrow> Inl e
      | Inr cells \<Rightarrow> Inr (out @ [cells]))"

text \<open>\<^verbatim>\<open>writeheader\<close>: \<^verbatim>\<open>self.writerow(dict(zip(self.fieldnames, self.fieldnames)))\<close>.\<close>

definition DictWriter_writeheader :: "string list \<Rightarrow> stdout \<Rightarrow> error + stdout" where
  "DictWriter_writeheader fieldnames out =
     DictWriter_writerow fieldnames
       (dict_of (zip (map PyStr fieldnames) (map PyStr fieldnames))) out"


section \<open>The script\<close>

definition remove_list :: "string list" where
  "remove_list =
     [''E1'', ''E2'', ''E3'', ''E4'', ''E5'', ''E6'',
      ''C1'', ''C2'', ''C3'', ''C4'', ''C5'', ''C6'']"

text \<open>
  The comprehension \<^verbatim>\<open>{col: row[col] for col in fieldnames}\<close>, with the dictionary built so
  far as an accumulator; the unguarded \<^verbatim>\<open>row[col]\<close> may raise \<^verbatim>\<open>KeyError\<close>.
\<close>

fun filtered_row :: "pydict \<Rightarrow> string list \<Rightarrow> pydict \<Rightarrow> error + pydict" where
  "filtered_row row [] acc = Inr acc"
| "filtered_row row (col # cols) acc =
     (case dict_getitem row (PyStr col) of
        Inl e \<Rightarrow> Inl e
      | Inr v \<Rightarrow> filtered_row row cols (dict_setitem acc (PyStr col) v))"

text \<open>
  The loop \<^verbatim>\<open>for row in reader\<close> of \<^verbatim>\<open>remove_columns\<close>. The result is the output written
  so far together with the exception that ended the loop, if any: an exception leaves the
  rows already written on standard output.
\<close>

function for_rows :: "DictReader \<Rightarrow> string list \<Rightarrow> stdout \<Rightarrow> stdout \<times> error option" where
  "for_rows rd fieldnames out =
     (case DictReader_next rd of
        StopIteration \<Rightarrow> (out, None)
      | Raised e \<Rightarrow> (out, Some e)
      | Yield (row, rd') \<Rightarrow>
          (case filtered_row row fieldnames [] of
             Inl e \<Rightarrow> (out, Some e)
           | Inr filtered \<Rightarrow>
               (case DictWriter_writerow fieldnames filtered out of
                  Inl e \<Rightarrow> (out, Some e)
                | Inr out' \<Rightarrow> for_rows rd' fieldnames out')))"
  by pat_completeness auto
termination
proof (relation "measure (\<lambda>(rd, fieldnames, out). length (reader rd))", goal_cases)
  case 1
  show ?case by simp
next
  case (2 rd fieldnames out yielded row rd' filtered out')
  have shorter: "length rest < length rs"
    if "next_nonblank rs = Some (r, rest)" for rs r rest
    using that by (induction rs) (auto split: if_splits)
  from 2(1,2) have "length (reader rd') < length (reader rd)"
    by (auto simp: DictReader_next_def DictReader_fieldnames_def
        split: option.splits list.splits prod.splits dest!: shorter)
  then show ?case by simp
qed

text \<open>
  \<^verbatim>\<open>remove_columns(reader, writer, columns_to_remove)\<close>. The parameter \<^verbatim>\<open>writer\<close> is
  overwritten at once by a \<^verbatim>\<open>DictWriter\<close> on \<^verbatim>\<open>sys.stdout\<close>; here it is the state of
  standard output. Iterating over \<^verbatim>\<open>reader.fieldnames\<close> when that is \<^verbatim>\<open>None\<close> (an input
  with no record at all) raises \<^verbatim>\<open>TypeError\<close>.
\<close>

definition remove_columns :: "DictReader \<Rightarrow> stdout \<Rightarrow> string list \<Rightarrow> stdout \<times> error option" where
  "remove_columns rd out columns_to_remove =
     (case DictReader_fieldnames rd of
        (None, rd') \<Rightarrow> (out, Some TypeError)
      | (Some header, rd') \<Rightarrow>
          (let fieldnames = filter (\<lambda>col. col \<notin> set columns_to_remove) header
           in case DictWriter_writeheader fieldnames out of
                Inl e \<Rightarrow> (out, Some e)
              | Inr out' \<Rightarrow> for_rows rd' fieldnames out'))"

text \<open>
  The main program. The environment gives \<^verbatim>\<open>sys.argv\<close>, what \<^verbatim>\<open>open\<close> does for a path
  (the file's records, \<^verbatim>\<open>FileNotFoundError\<close>, or another \<^verbatim>\<open>OSError\<close>, which the
  \<^verbatim>\<open>try\<close> does not catch) and the records of standard input. A run ends with the rows
  written to standard output, the lines the script itself prints to standard error, and
  either an exit status or the exception that nothing caught.
\<close>

datatype open_result = Opened "string list list" | FileNotFoundError | OtherOSError

record env =
  argv :: "string list"
  open_file :: "string \<Rightarrow> open_result"
  stdin :: "string list list"

datatype outcome = Exit nat | Uncaught error

record run =
  run_stdout :: stdout
  run_stderr :: "string list"
  run_outcome :: outcome

text \<open>
  Lines 50 to 54: the reader is made on the chosen stream and \<^verbatim>\<open>remove_columns\<close> is
  called with \<^verbatim>\<open>remove_list\<close>; falling off the end of the script is exit status 0.
\<close>

definition process :: "string list list \<Rightarrow> run" where
  "process infile =
     (case remove_columns (DictReader_init infile) [] remove_list of
        (out, None) \<Rightarrow> \<lparr>run_stdout = out, run_stderr = [], run_outcome = Exit 0\<rparr>
      | (out, Some e) \<Rightarrow> \<lparr>run_stdout = out, run_stderr = [], run_outcome = Uncaught e\<rparr>)"

text \<open>
  Lines 41 to 48: the stream the run reads. The \<^verbatim>\<open>try\<close> opens \<^verbatim>\<open>sys.argv[1]\<close>; on
  \<^verbatim>\<open>FileNotFoundError\<close> the stream is standard input and \<^verbatim>\<open>sys.argv[1:]\<close> is bound to
  \<^verbatim>\<open>columns\<close>, which nothing reads afterwards.
\<close>

definition infile_of :: "env \<Rightarrow> error + string list list" where
  "infile_of e =
     (let maybe_file = argv e ! 1
      in case open_file e maybe_file of
           Opened infile \<Rightarrow> Inr infile
         | FileNotFoundError \<Rightarrow>
             (let infile = stdin e;
                  columns = drop 1 (argv e)
              in Inr infile)
         | OtherOSError \<Rightarrow> Inl OSError)"

definition main :: "env \<Rightarrow> run" where
  "main e =
     (if length (argv e) < 2 then
        \<lparr>run_stdout = [], run_stderr = [''Usage: script.py [file]''], run_outcome = Exit 1\<rparr>
      else
        (case infile_of e of
           Inl err \<Rightarrow> \<lparr>run_stdout = [], run_stderr = [], run_outcome = Uncaught err\<rparr>
         | Inr infile \<Rightarrow> process infile))"

section \<open>Dictionaries as finite maps\<close>

lemma map_of_dict_setitem: "map_of (dict_setitem d k v) = (map_of d)(k \<mapsto> v)"
  by (induction d k v rule: dict_setitem.induct) (auto simp: fun_eq_iff)

lemma dict_keys_setitem: "set (dict_keys (dict_setitem d k v)) = insert k (set (dict_keys d))"
  by (induction d k v rule: dict_setitem.induct) (auto simp: dict_keys_def)

lemma map_of_foldl_setitem:
  "map_of (foldl (\<lambda>d (k, v). dict_setitem d k v) d kvs) = map_of d ++ map_of (rev kvs)"
proof (induction kvs arbitrary: d)
  case Nil
  show ?case by simp
next
  case (Cons kv kvs)
  obtain k v where kv: "kv = (k, v)" by (cases kv)
  have "map_of (foldl (\<lambda>d (k, v). dict_setitem d k v) d (kv # kvs))
      = map_of (dict_setitem d k v) ++ map_of (rev kvs)"
    using Cons.IH [of "dict_setitem d k v"] by (simp add: kv)
  also have "\<dots> = map_of d ++ map_of (rev (kv # kvs))"
    by (simp add: kv map_of_dict_setitem fun_eq_iff map_add_def split: option.splits)
  finally show ?case .
qed

lemma map_of_dict_of: "map_of (dict_of kvs) = map_of (rev kvs)"
  by (simp add: dict_of_def map_of_foldl_setitem)

lemma dict_keys_foldl_setitem:
  "set (dict_keys (foldl (\<lambda>d (k, v). dict_setitem d k v) d kvs)) = set (dict_keys d) \<union> fst ` set kvs"
  by (induction kvs arbitrary: d) (auto simp: dict_keys_setitem)

lemma map_of_foldl_restval:
  "map_of (foldl (\<lambda>d key. dict_setitem d (PyStr key) PyNone) d ks) k =
     (if k \<in> PyStr ` set ks then Some PyNone else map_of d k)"
  by (induction ks arbitrary: d) (auto simp: map_of_dict_setitem)

lemma dict_keys_dict_of: "set (dict_keys (dict_of kvs)) = fst ` set kvs"
  using dict_keys_foldl_setitem [of "[]" kvs] by (simp add: dict_of_def dict_keys_def)

lemma map_of_rev_zip_same':
  "map_of (rev (zip ks ks)) k = (if k \<in> set ks then Some k else None)"
  by (induction ks) (auto simp: map_add_def)

lemma map_of_rev_zip_same:
  "k \<in> set ks \<Longrightarrow> map_of (rev (zip ks ks)) k = Some k"
  by (simp add: map_of_rev_zip_same')

lemma writeheader_ok:
  "DictWriter_writeheader fs out = Inr (out @ [map PyStr fs])"
proof -
  let ?d = "dict_of (zip (map PyStr fs) (map PyStr fs))"
  have keys: "set (dict_keys ?d) \<subseteq> PyStr ` set fs"
    by (auto simp: dict_keys_dict_of dest: set_zip_leftD)
  have "dict_get ?d (PyStr c) (PyStr []) = PyStr c" if "c \<in> set fs" for c
    using that by (simp add: dict_get_def map_of_dict_of map_of_rev_zip_same)
  then have "map (\<lambda>key. dict_get ?d (PyStr key) (PyStr [])) fs = map PyStr fs"
    by simp
  with keys show ?thesis
    by (auto simp: DictWriter_writeheader_def DictWriter_writerow_def dict_to_list_def)
qed

lemma fst_set_zip: "fst ` set (zip ks vs) = set (take (length vs) ks)"
proof -
  have "fst ` set (zip ks vs) = set (map fst (zip ks vs))" by simp
  also have "\<dots> = set (take (min (length ks) (length vs)) ks)"
    by (simp only: map_fst_zip_take)
  also have "take (min (length ks) (length vs)) ks = take (length vs) ks"
    by (cases "length ks \<le> length vs") (simp_all add: min_def)
  finally show ?thesis .
qed

lemma map_of_rev_zip_dom:
  "k \<in> set (take (length vs) ks) \<Longrightarrow> map_of (rev (zip ks vs)) k \<noteq> None"
  by (simp add: map_of_eq_None_iff fst_set_zip)

section \<open>What the reader delivers and what a run writes\<close>

lemma map_of_row_dict:
  "map_of (row_dict h r) (PyStr c) =
     (if c \<in> set (drop (length r) h) then Some PyNone
      else map_of (rev (zip (map PyStr h) (map PyStr r))) (PyStr c))"
  by (auto simp: row_dict_def Let_def map_of_dict_setitem map_of_dict_of map_of_foldl_restval)

lemma row_dict_has_key:
  assumes "c \<in> set h"
  shows "map_of (row_dict h r) (PyStr c) \<noteq> None"
proof (cases "c \<in> set (drop (length r) h)")
  case True
  then show ?thesis by (simp add: map_of_row_dict)
next
  case False
  have "set h = set (take (length r) h) \<union> set (drop (length r) h)"
    by (metis append_take_drop_id set_append)
  with assms False have "c \<in> set (take (length r) h)" by blast
  then have "PyStr c \<in> set (take (length (map PyStr r)) (map PyStr h))"
    by (simp add: take_map)
  then have "map_of (rev (zip (map PyStr h) (map PyStr r))) (PyStr c) \<noteq> None"
    by (rule map_of_rev_zip_dom)
  with False show ?thesis by (simp add: map_of_row_dict)
qed

lemma filtered_row_ok:
  assumes "\<forall>c \<in> set cols. map_of row (PyStr c) \<noteq> None"
  shows "\<exists>d. filtered_row row cols acc = Inr d
           \<and> set (dict_keys d) = set (dict_keys acc) \<union> PyStr ` set cols
           \<and> (\<forall>k. map_of d k = (if k \<in> PyStr ` set cols then map_of row k else map_of acc k))"
  using assms
proof (induction cols arbitrary: acc)
  case Nil
  show ?case by simp
next
  case (Cons col cols)
  from Cons.prems obtain v where v: "map_of row (PyStr col) = Some v" by auto
  let ?acc = "dict_setitem acc (PyStr col) v"
  from Cons.prems have "\<forall>c \<in> set cols. map_of row (PyStr c) \<noteq> None" by simp
  from Cons.IH [OF this, of ?acc] obtain d where
    d: "filtered_row row cols ?acc = Inr d"
    and keys: "set (dict_keys d) = set (dict_keys ?acc) \<union> PyStr ` set cols"
    and vals: "\<forall>k. map_of d k = (if k \<in> PyStr ` set cols then map_of row k else map_of ?acc k)"
    by blast
  have step: "filtered_row row (col # cols) acc = Inr d"
    by (simp add: dict_getitem_def v d)
  have keys': "set (dict_keys d) = set (dict_keys acc) \<union> PyStr ` set (col # cols)"
    using keys by (auto simp: dict_keys_setitem)
  have "\<forall>k. map_of d k =
      (if k \<in> PyStr ` set (col # cols) then map_of row k else map_of acc k)"
    using vals v by (auto simp: map_of_dict_setitem)
  with step keys' show ?case by blast
qed

lemma process_row_ok:
  assumes "set fs \<subseteq> set h"
  shows "\<exists>d. filtered_row (row_dict h r) fs [] = Inr d
           \<and> DictWriter_writerow fs d out =
               Inr (out @ [map (\<lambda>c. dict_get (row_dict h r) (PyStr c) PyNone) fs])"
proof -
  from assms have "\<forall>c \<in> set fs. map_of (row_dict h r) (PyStr c) \<noteq> None"
    using row_dict_has_key by blast
  from filtered_row_ok [OF this, of "[]"] obtain d where
    d: "filtered_row (row_dict h r) fs [] = Inr d"
    and keys: "set (dict_keys d) = set (dict_keys []) \<union> PyStr ` set fs"
    and vals: "\<forall>k. map_of d k = (if k \<in> PyStr ` set fs then map_of (row_dict h r) k else map_of [] k)"
    by blast
  have nokey: "\<not> (\<exists>k \<in> set (dict_keys d). k \<notin> set (map PyStr fs))"
    using keys by (simp add: dict_keys_def)
  have "dict_get d (PyStr c) (PyStr []) = dict_get (row_dict h r) (PyStr c) PyNone"
    if "c \<in> set fs" for c
  proof -
    from that assms have "map_of (row_dict h r) (PyStr c) \<noteq> None"
      using row_dict_has_key by blast
    with that vals show ?thesis by (auto simp: dict_get_def)
  qed
  then have "map (\<lambda>key. dict_get d (PyStr key) (PyStr [])) fs
      = map (\<lambda>c. dict_get (row_dict h r) (PyStr c) PyNone) fs"
    by simp
  with nokey have "DictWriter_writerow fs d out =
      Inr (out @ [map (\<lambda>c. dict_get (row_dict h r) (PyStr c) PyNone) fs])"
    by (simp add: DictWriter_writerow_def dict_to_list_def)
  with d show ?thesis by blast
qed

lemma for_rows_run:
  assumes "set fs \<subseteq> set h"
  shows "for_rows \<lparr>reader = rs, fieldnames_attr = Some h\<rparr> fs out =
     (out @ map (\<lambda>r. map (\<lambda>c. dict_get (row_dict h r) (PyStr c) PyNone) fs)
              (filter (\<lambda>r. r \<noteq> []) rs), None)"
proof (induction rs arbitrary: out)
  case Nil
  show ?case
    by (subst for_rows.simps) (simp add: DictReader_next_def DictReader_fieldnames_def)
next
  case (Cons r rs)
  show ?case
  proof (cases "r = []")
    case True
    have "DictReader_next \<lparr>reader = r # rs, fieldnames_attr = Some h\<rparr>
        = DictReader_next \<lparr>reader = rs, fieldnames_attr = Some h\<rparr>"
      by (simp add: DictReader_next_def DictReader_fieldnames_def True
          split: option.splits prod.splits)
    then have "for_rows \<lparr>reader = r # rs, fieldnames_attr = Some h\<rparr> fs out
        = for_rows \<lparr>reader = rs, fieldnames_attr = Some h\<rparr> fs out"
      by (simp only: for_rows.simps [of "\<lparr>reader = r # rs, fieldnames_attr = Some h\<rparr>" fs out]
          for_rows.simps [of "\<lparr>reader = rs, fieldnames_attr = Some h\<rparr>" fs out])
    with Cons.IH [of out] True show ?thesis by simp
  next
    case False
    let ?cells = "map (\<lambda>c. dict_get (row_dict h r) (PyStr c) PyNone) fs"
    have nxt: "DictReader_next \<lparr>reader = r # rs, fieldnames_attr = Some h\<rparr>
        = Yield (row_dict h r, \<lparr>reader = rs, fieldnames_attr = Some h\<rparr>)"
      by (simp add: DictReader_next_def DictReader_fieldnames_def False)
    from process_row_ok [OF assms, of r out] obtain d where
      d: "filtered_row (row_dict h r) fs [] = Inr d"
      and w: "DictWriter_writerow fs d out = Inr (out @ [?cells])"
      by blast
    have "for_rows \<lparr>reader = r # rs, fieldnames_attr = Some h\<rparr> fs out
        = for_rows \<lparr>reader = rs, fieldnames_attr = Some h\<rparr> fs (out @ [?cells])"
      by (subst for_rows.simps) (simp add: nxt d w)
    with Cons.IH [of "out @ [?cells]"] False show ?thesis by simp
  qed
qed

lemma remove_columns_run:
  "remove_columns (DictReader_init (h # rs)) out rm =
     (out @ map PyStr (filter (\<lambda>col. col \<notin> set rm) h)
          # map (\<lambda>r. map (\<lambda>c. dict_get (row_dict h r) (PyStr c) PyNone)
                          (filter (\<lambda>col. col \<notin> set rm) h))
              (filter (\<lambda>r. r \<noteq> []) rs), None)"
proof -
  have "set (filter (\<lambda>col. col \<notin> set rm) h) \<subseteq> set h" by auto
  from for_rows_run [OF this] show ?thesis
    by (simp add: remove_columns_def DictReader_init_def DictReader_fieldnames_def
        writeheader_ok Let_def)
qed

lemma remove_columns_empty:
  "remove_columns (DictReader_init []) out rm = (out, Some TypeError)"
  by (simp add: remove_columns_def DictReader_init_def DictReader_fieldnames_def)

lemma map_of_rev_distinct:
  "distinct (map fst zs) \<Longrightarrow> map_of (rev zs) = map_of zs"
proof (induction zs)
  case Nil
  show ?case by simp
next
  case (Cons z zs)
  then have IH: "map_of (rev zs) = map_of zs" and fresh: "fst z \<notin> fst ` set zs"
    by simp_all
  from fresh have none: "map_of zs (fst z) = None"
    by (simp add: map_of_eq_None_iff)
  show ?case
  proof
    fix k
    show "map_of (rev (z # zs)) k = map_of (z # zs) k"
      using none by (cases "map_of zs k") (auto simp: IH map_add_def)
  qed
qed

lemma zip_take_length: "zip xs (take (length xs) ys) = zip xs ys"
proof (induction xs arbitrary: ys)
  case Nil
  show ?case by simp
next
  case (Cons x xs)
  then show ?case by (cases ys) simp_all
qed

lemma map_of_zip_nth_short:
  "distinct xs \<Longrightarrow> i < length xs \<Longrightarrow> i < length ys \<Longrightarrow> map_of (zip xs ys) (xs ! i) = Some (ys ! i)"
proof (induction xs arbitrary: i ys)
  case Nil
  then show ?case by simp
next
  case (Cons x xs)
  then obtain y ys' where ys: "ys = y # ys'" by (cases ys) auto
  show ?case
  proof (cases i)
    case 0
    then show ?thesis by (simp add: ys)
  next
    case (Suc j)
    with Cons.prems ys have "map_of (zip xs ys') (xs ! j) = Some (ys' ! j)"
      by (intro Cons.IH) auto
    moreover from Cons.prems Suc have "xs ! j \<noteq> x" by auto
    ultimately show ?thesis by (simp add: ys Suc)
  qed
qed

lemma cell_present:
  assumes "distinct h" "i < length h" "i < length r"
  shows "dict_get (row_dict h r) (PyStr (h ! i)) PyNone = PyStr (r ! i)"
proof -
  have "h ! i \<in> set (take (length r) h)"
    using assms by (metis in_set_conv_nth length_take min_less_iff_conj nth_take)
  moreover have "set (take (length r) h) \<inter> set (drop (length r) h) = {}"
    using assms(1) by (metis append_take_drop_id distinct_append)
  ultimately have notin: "h ! i \<notin> set (drop (length r) h)" by blast
  let ?zs = "zip (map PyStr h) (map PyStr r)"
  have d: "distinct (map PyStr h)"
    using assms(1) by (simp add: distinct_map inj_on_def)
  then have "distinct (map fst ?zs)"
    by (simp add: map_fst_zip_take distinct_take del: take_map)
  then have "map_of (rev ?zs) = map_of ?zs"
    by (rule map_of_rev_distinct)
  moreover have "map_of ?zs (map PyStr h ! i) = Some (map PyStr r ! i)"
    using d assms by (intro map_of_zip_nth_short) simp_all
  ultimately have "map_of (rev ?zs) (PyStr (h ! i)) = Some (PyStr (r ! i))"
    using assms by simp
  with notin show ?thesis
    by (simp add: dict_get_def map_of_row_dict)
qed

lemma cell_missing:
  assumes "i < length h" "length r \<le> i"
  shows "map_of (row_dict h r) (PyStr (h ! i)) = Some PyNone"
proof -
  have "drop (length r) h ! (i - length r) = h ! i"
    using assms by simp
  moreover have "i - length r < length (drop (length r) h)"
    using assms by simp
  ultimately have "h ! i \<in> set (drop (length r) h)"
    by (metis nth_mem)
  then show ?thesis by (simp add: map_of_row_dict)
qed

lemma row_dict_take:
  assumes "length h \<le> length r"
  shows "map_of (row_dict h (take (length h) r)) (PyStr c) = map_of (row_dict h r) (PyStr c)"
proof -
  have "zip (map PyStr h) (map PyStr (take (length h) r)) = zip (map PyStr h) (map PyStr r)"
    by (metis length_map take_map zip_take_length)
  with assms show ?thesis by (simp add: map_of_row_dict)
qed

lemma filtered_row_cong:
  "\<forall>c \<in> set cols. map_of row1 (PyStr c) = map_of row2 (PyStr c) \<Longrightarrow>
     filtered_row row1 cols acc = filtered_row row2 cols acc"
  by (induction cols arbitrary: acc) (simp_all add: dict_getitem_def split: option.splits)

lemma getitem_row_dict:
  assumes "c \<in> set h"
  shows "dict_getitem (row_dict h r) (PyStr c) = Inr (dict_get (row_dict h r) (PyStr c) PyNone)"
  using row_dict_has_key [OF assms, of r]
  by (auto simp: dict_getitem_def dict_get_def)

lemma written_cell:
  assumes "k < length (filter (\<lambda>row. row \<noteq> []) rows)"
    and "j < length (filter (\<lambda>col. col \<notin> set removal) header)"
  shows "fst (remove_columns (DictReader_init (header # rows)) [] removal) ! Suc k ! j
     = dict_get (row_dict header (filter (\<lambda>row. row \<noteq> []) rows ! k))
         (PyStr (filter (\<lambda>col. col \<notin> set removal) header ! j)) PyNone"
  using assms by (simp add: remove_columns_run)

lemma cell_take:
  assumes "length h \<le> length r"
  shows "dict_get (row_dict h (take (length h) r)) (PyStr c) d = dict_get (row_dict h r) (PyStr c) d"
  using row_dict_take [OF assms, of c] by (simp add: dict_get_def)

lemma process_header:
  "process (header # rows) =
     \<lparr>run_stdout = fst (remove_columns (DictReader_init (header # rows)) [] remove_list),
      run_stderr = [], run_outcome = Exit 0\<rparr>"
  by (simp add: process_def remove_columns_run)

lemma process_empty:
  "process [] = \<lparr>run_stdout = [], run_stderr = [], run_outcome = Uncaught TypeError\<rparr>"
  by (simp add: process_def remove_columns_empty)

lemma process_stdout:
  "run_stdout (process infile) = fst (remove_columns (DictReader_init infile) [] remove_list)"
  by (cases infile) (simp_all add: process_header process_empty remove_columns_empty)

lemma process_outcome:
  "run_outcome (process infile) = (case infile of [] \<Rightarrow> Uncaught TypeError | header # rows \<Rightarrow> Exit 0)"
  by (cases infile) (simp_all add: process_header process_empty)

lemma main_two_args:
  "2 \<le> length (argv e) \<Longrightarrow>
     main e = (case infile_of e of
                 Inl err \<Rightarrow> \<lparr>run_stdout = [], run_stderr = [], run_outcome = Uncaught err\<rparr>
               | Inr infile \<Rightarrow> process infile)"
  by (simp add: main_def)

lemma count_list_distinct:
  "distinct xs \<Longrightarrow> count_list xs x = (if x \<in> set xs then 1 else 0)"
  by (induction xs) auto


section \<open>The output header\<close>

text \<open>
  C1. For an input whose first record is a header of distinct column names, the header
  that \<^verbatim>\<open>remove_columns\<close> writes (the first row on standard output) is the input header
  filtered by "not in the removal list": a subsequence of the input header in the original
  order, in which every header name outside the removal list occurs exactly once and no
  other name occurs. The removal list is arbitrary, so names of it that the header does
  not have are covered, and the run raises nothing.
\<close>

theorem C1_output_header:
  assumes "distinct header"
  shows "hd (fst (remove_columns (DictReader_init (header # rows)) [] removal))
           = map PyStr (filter (\<lambda>col. col \<notin> set removal) header)
       \<and> subseq (filter (\<lambda>col. col \<notin> set removal) header) header
       \<and> (\<forall>col. count_list (filter (\<lambda>col. col \<notin> set removal) header) col
              = (if col \<in> set header \<and> col \<notin> set removal then 1 else 0))
       \<and> snd (remove_columns (DictReader_init (header # rows)) [] removal) = None"
proof -
  let ?fs = "filter (\<lambda>col. col \<notin> set removal) header"
  have hdr: "hd (fst (remove_columns (DictReader_init (header # rows)) [] removal)) = map PyStr ?fs"
    and ok: "snd (remove_columns (DictReader_init (header # rows)) [] removal) = None"
    by (simp_all add: remove_columns_run)
  have sub: "subseq ?fs header" by simp
  from assms have "distinct ?fs" by simp
  then have cnt: "count_list ?fs col = (if col \<in> set header \<and> col \<notin> set removal then 1 else 0)"
    for col
    by (simp add: count_list_distinct)
  from hdr sub cnt ok show ?thesis by blast
qed

text \<open>The header \<^verbatim>\<open>A,B,E1,C,C2\<close> with the built-in removal list gives \<^verbatim>\<open>A,B,C\<close>.\<close>

theorem C1_output_header_witness:
  "distinct [''A'', ''B'', ''E1'', ''C'', ''C2'']
   \<and> hd (fst (remove_columns
        (DictReader_init [[''A'', ''B'', ''E1'', ''C'', ''C2''], [''1'', ''2'', ''3'', ''4'', ''5'']])
        [] remove_list)) = [PyStr ''A'', PyStr ''B'', PyStr ''C'']
   \<and> count_list (filter (\<lambda>col. col \<notin> set remove_list) [''A'', ''B'', ''E1'', ''C'', ''C2'']) ''B'' = 1
   \<and> snd (remove_columns
        (DictReader_init [[''A'', ''B'', ''E1'', ''C'', ''C2''], [''1'', ''2'', ''3'', ''4'', ''5'']])
        [] remove_list) = None"
  using C1_output_header [of "[''A'', ''B'', ''E1'', ''C'', ''C2'']"
      "[[''1'', ''2'', ''3'', ''4'', ''5'']]" remove_list]
  by (simp add: remove_list_def)


section \<open>One output record per input record\<close>

text \<open>
  C2, as stated, fails on a blank input record. The header \<^verbatim>\<open>E1\<close> has no surviving
  column, so every data row supplies a value for every surviving column; the input has one
  data record, a blank line, which \<^verbatim>\<open>csv.DictReader\<close> skips: the output is the header
  line alone, with no data record.
\<close>

theorem C2_blank_record_counterexample:
  "filter (\<lambda>col. col \<notin> set remove_list) [''E1''] = []
   \<and> remove_columns (DictReader_init [[''E1''], []]) [] remove_list = ([[]], None)
   \<and> length (tl (fst (remove_columns (DictReader_init [[''E1''], []]) [] remove_list)))
       \<noteq> length (tl [[''E1''], []::string list])"
  by (simp add: remove_columns_run remove_list_def)

text \<open>
  C2, amended. For an input stream whose data rows each supply a value for every surviving
  column, the output is one header row followed by exactly one row per input data record
  that is not blank, in the order of the input: the row of record \<open>row\<close> holds, for each
  surviving column, the value that the reader's dictionary for \<open>row\<close> has under that
  column. Blank records are skipped; nothing else is added, removed or reordered, and the
  run raises nothing.
\<close>

theorem C2_one_record_per_nonblank_row:
  assumes "\<forall>row \<in> set rows. \<forall>col \<in> set (filter (\<lambda>col. col \<notin> set removal) header).
             col \<in> set (take (length row) header)"
  shows "remove_columns (DictReader_init (header # rows)) [] removal
           = (map PyStr (filter (\<lambda>col. col \<notin> set removal) header)
                # map (\<lambda>row. map (\<lambda>col. dict_get (row_dict header row) (PyStr col) PyNone)
                                  (filter (\<lambda>col. col \<notin> set removal) header))
                      (filter (\<lambda>row. row \<noteq> []) rows),
              None)
       \<and> length (fst (remove_columns (DictReader_init (header # rows)) [] removal))
           = Suc (length (filter (\<lambda>row. row \<noteq> []) rows))"
  by (simp add: remove_columns_run)

text \<open>Header \<^verbatim>\<open>A,E1\<close> and the rows \<^verbatim>\<open>1,2\<close> and \<^verbatim>\<open>3,4\<close>.\<close>

theorem C2_one_record_per_nonblank_row_witness:
  "remove_columns (DictReader_init [[''A'', ''E1''], [''1'', ''2''], [''3'', ''4'']]) [] remove_list
     = ([[PyStr ''A''], [PyStr ''1''], [PyStr ''3'']], None)"
  using C2_one_record_per_nonblank_row [of "[[''1'', ''2''], [''3'', ''4'']]" remove_list "[''A'', ''E1'']"]
  by (simp add: remove_list_def row_dict_def dict_of_def dict_get_def)


section \<open>Cell fidelity\<close>

text \<open>
  C3. Take the \<open>k\<close>-th data row that the reader yields and the \<open>j\<close>-th surviving column.
  The cell written for them (row \<open>k + 1\<close> of the output, after the header row) is the
  value that the lookup \<^verbatim>\<open>row[col]\<close> returns from the reader's dictionary for that row,
  unchanged. When the header names are distinct, as the data model assumes, and the row
  has a cell at the column's position \<open>i\<close> in the header, that value is the input cell
  itself, character for character.
\<close>

theorem C3_cell_fidelity:
  assumes "k < length (filter (\<lambda>row. row \<noteq> []) rows)"
    and "j < length (filter (\<lambda>col. col \<notin> set removal) header)"
  shows "dict_getitem (row_dict header (filter (\<lambda>row. row \<noteq> []) rows ! k))
             (PyStr (filter (\<lambda>col. col \<notin> set removal) header ! j))
           = Inr (fst (remove_columns (DictReader_init (header # rows)) [] removal) ! Suc k ! j)
       \<and> (distinct header \<longrightarrow>
            (\<forall>i. i < length header \<and> i < length (filter (\<lambda>row. row \<noteq> []) rows ! k)
                  \<and> header ! i = filter (\<lambda>col. col \<notin> set removal) header ! j
              \<longrightarrow> fst (remove_columns (DictReader_init (header # rows)) [] removal) ! Suc k ! j
                    = PyStr (filter (\<lambda>row. row \<noteq> []) rows ! k ! i)))"
proof -
  let ?fs = "filter (\<lambda>col. col \<notin> set removal) header"
  let ?r = "filter (\<lambda>row. row \<noteq> []) rows ! k"
  let ?out = "fst (remove_columns (DictReader_init (header # rows)) [] removal)"
  have cell: "?out ! Suc k ! j = dict_get (row_dict header ?r) (PyStr (?fs ! j)) PyNone"
    using assms by (rule written_cell)
  from assms(2) have "?fs ! j \<in> set ?fs" by (rule nth_mem)
  then have "?fs ! j \<in> set header" by simp
  then have first: "dict_getitem (row_dict header ?r) (PyStr (?fs ! j)) = Inr (?out ! Suc k ! j)"
    by (simp add: getitem_row_dict cell)
  have second: "?out ! Suc k ! j = PyStr (?r ! i)"
    if "distinct header" "i < length header" "i < length ?r" "header ! i = ?fs ! j" for i
    using cell_present [OF that(1-3)] that(4) cell by simp
  from first second show ?thesis by blast
qed

text \<open>
  Header \<^verbatim>\<open>A,E1,B\<close>: the cell of column \<^verbatim>\<open>B\<close> keeps its surrounding blanks.
\<close>

theorem C3_cell_fidelity_witness:
  "fst (remove_columns (DictReader_init [[''A'', ''E1'', ''B''], [''1'', ''2'', '' 3 '']]) [] remove_list)
     ! Suc 0 ! 1 = PyStr '' 3 ''"
proof -
  let ?out = "fst (remove_columns (DictReader_init [[''A'', ''E1'', ''B''], [''1'', ''2'', '' 3 '']])
                 [] remove_list)"
  have k: "0 < length (filter (\<lambda>row. row \<noteq> []) [[''1'', ''2'', '' 3 '']])"
    by simp
  have j: "1 < length (filter (\<lambda>col. col \<notin> set remove_list) [''A'', ''E1'', ''B''])"
    by (simp add: remove_list_def)
  have d: "distinct [''A'', ''E1'', ''B'']"
    by simp
  from C3_cell_fidelity [OF k j] d
  have "\<forall>i. i < length [''A'', ''E1'', ''B'']
            \<and> i < length (filter (\<lambda>row. row \<noteq> []) [[''1'', ''2'', '' 3 '']] ! 0)
            \<and> [''A'', ''E1'', ''B''] ! i
                = filter (\<lambda>col. col \<notin> set remove_list) [''A'', ''E1'', ''B''] ! 1
          \<longrightarrow> ?out ! Suc 0 ! 1 = PyStr (filter (\<lambda>row. row \<noteq> []) [[''1'', ''2'', '' 3 '']] ! 0 ! i)"
    by blast
  from this [rule_format, of 2] show ?thesis
    by (simp add: remove_list_def)
qed


section \<open>A row shorter than the header\<close>

text \<open>
  C4, as stated, fails. With the header \<^verbatim>\<open>A,B\<close> and the one data row \<^verbatim>\<open>1\<close>, which lacks
  the surviving column \<^verbatim>\<open>B\<close>, no \<^verbatim>\<open>KeyError\<close> is raised: the run ends normally and the
  row is written with \<^verbatim>\<open>None\<close> for \<^verbatim>\<open>B\<close>.
\<close>

theorem C4_short_row_counterexample:
  "remove_columns (DictReader_init [[''A'', ''B''], [''1'']]) [] remove_list
     = ([[PyStr ''A'', PyStr ''B''], [PyStr ''1'', PyNone]], None)"
  by (simp add: remove_columns_run remove_list_def row_dict_def dict_of_def dict_get_def)

text \<open>
  C4, amended. Let a data row be too short to reach the surviving column at position \<open>i\<close>
  of the header. \<^verbatim>\<open>csv.DictReader\<close> stores \<^verbatim>\<open>None\<close> under that column, so the lookup
  \<^verbatim>\<open>row[col]\<close> succeeds with \<^verbatim>\<open>None\<close>; the run raises nothing and writes a row for every
  non-blank record of the stream, those after the short row included; and the short row,
  unless it is blank (then it is skipped), is written with \<^verbatim>\<open>None\<close> in that column.
\<close>

theorem C4_short_row_padded:
  assumes "i < length header" and "length row \<le> i" and "header ! i \<notin> set removal"
  shows "dict_getitem (row_dict header row) (PyStr (header ! i)) = Inr PyNone
       \<and> snd (remove_columns (DictReader_init (header # before @ row # after)) [] removal) = None
       \<and> length (fst (remove_columns (DictReader_init (header # before @ row # after)) [] removal))
           = Suc (length (filter (\<lambda>row. row \<noteq> []) (before @ row # after)))
       \<and> (row \<noteq> [] \<longrightarrow>
            (\<forall>j. j < length (filter (\<lambda>col. col \<notin> set removal) header)
                  \<and> filter (\<lambda>col. col \<notin> set removal) header ! j = header ! i
              \<longrightarrow> fst (remove_columns (DictReader_init (header # before @ row # after)) [] removal)
                      ! Suc (length (filter (\<lambda>row. row \<noteq> []) before)) ! j = PyNone))"
proof -
  let ?fs = "filter (\<lambda>col. col \<notin> set removal) header"
  let ?rows = "before @ row # after"
  let ?out = "fst (remove_columns (DictReader_init (header # ?rows)) [] removal)"
  let ?k = "length (filter (\<lambda>row. row \<noteq> []) before)"
  have look: "dict_getitem (row_dict header row) (PyStr (header ! i)) = Inr PyNone"
    using cell_missing [OF assms(1,2)] by (simp add: dict_getitem_def)
  have ok: "snd (remove_columns (DictReader_init (header # ?rows)) [] removal) = None"
    by (simp add: remove_columns_run)
  have len: "length ?out = Suc (length (filter (\<lambda>row. row \<noteq> []) ?rows))"
    by (simp add: remove_columns_run)
  have cell: "?out ! Suc ?k ! j = PyNone"
    if "row \<noteq> []" "j < length ?fs" "?fs ! j = header ! i" for j
  proof -
    from that(1) have k: "?k < length (filter (\<lambda>row. row \<noteq> []) ?rows)"
      and r: "filter (\<lambda>row. row \<noteq> []) ?rows ! ?k = row"
      by (simp_all add: nth_append)
    from written_cell [OF k that(2)] r that(3)
    have "?out ! Suc ?k ! j = dict_get (row_dict header row) (PyStr (header ! i)) PyNone"
      by simp
    also have "\<dots> = PyNone"
      using cell_missing [OF assms(1,2)] by (simp add: dict_get_def)
    finally show ?thesis .
  qed
  from look ok len cell show ?thesis by blast
qed

text \<open>Header \<^verbatim>\<open>A,B\<close>, the short row \<^verbatim>\<open>1\<close>, then the full row \<^verbatim>\<open>2,3\<close>.\<close>

theorem C4_short_row_padded_witness:
  "dict_getitem (row_dict [''A'', ''B''] [''1'']) (PyStr ''B'') = Inr PyNone
   \<and> snd (remove_columns (DictReader_init [[''A'', ''B''], [''1''], [''2'', ''3'']]) [] remove_list) = None
   \<and> length (fst (remove_columns (DictReader_init [[''A'', ''B''], [''1''], [''2'', ''3'']]) [] remove_list)) = 3
   \<and> fst (remove_columns (DictReader_init [[''A'', ''B''], [''1''], [''2'', ''3'']]) [] remove_list)
        ! Suc 0 ! 1 = PyNone"
  using C4_short_row_padded [of 1 "[''A'', ''B'']" "[''1'']" remove_list "[]" "[[''2'', ''3'']]"]
  by (simp add: remove_list_def)


section \<open>The removal list\<close>

text \<open>
  C5. The removal list is the constant \<open>remove_list\<close>: twelve distinct names,
  \<^verbatim>\<open>E1\<close> to \<^verbatim>\<open>E6\<close> and \<^verbatim>\<open>C1\<close> to \<^verbatim>\<open>C6\<close>, with no parameter, hence independent of the
  input and of the command line. A run with a path argument writes what
  \<^verbatim>\<open>remove_columns\<close> writes for exactly this list, both when the file opens and when it
  does not exist and standard input is read.
\<close>

theorem C5_fixed_removal_list:
  assumes "2 \<le> length (argv e)"
  shows "length remove_list = 12 \<and> distinct remove_list
       \<and> (\<forall>f. open_file e (argv e ! 1) = Opened f \<longrightarrow>
            run_stdout (main e) = fst (remove_columns (DictReader_init f) []
              [''E1'', ''E2'', ''E3'', ''E4'', ''E5'', ''E6'',
               ''C1'', ''C2'', ''C3'', ''C4'', ''C5'', ''C6'']))
       \<and> (open_file e (argv e ! 1) = FileNotFoundError \<longrightarrow>
            run_stdout (main e) = fst (remove_columns (DictReader_init (stdin e)) []
              [''E1'', ''E2'', ''E3'', ''E4'', ''E5'', ''E6'',
               ''C1'', ''C2'', ''C3'', ''C4'', ''C5'', ''C6'']))"
proof -
  have l: "length remove_list = 12" and d: "distinct remove_list"
    by (simp_all add: remove_list_def)
  have opened: "run_stdout (main e) = fst (remove_columns (DictReader_init f) []
      [''E1'', ''E2'', ''E3'', ''E4'', ''E5'', ''E6'', ''C1'', ''C2'', ''C3'', ''C4'', ''C5'', ''C6''])"
    if "open_file e (argv e ! 1) = Opened f" for f
    using assms that process_stdout [of f]
    by (simp add: main_def infile_of_def remove_list_def)
  have inp: "run_stdout (main e) = fst (remove_columns (DictReader_init (stdin e)) []
      [''E1'', ''E2'', ''E3'', ''E4'', ''E5'', ''E6'', ''C1'', ''C2'', ''C3'', ''C4'', ''C5'', ''C6''])"
    if "open_file e (argv e ! 1) = FileNotFoundError"
    using assms that process_stdout [of "stdin e"]
    by (simp add: main_def infile_of_def remove_list_def)
  from l d opened inp show ?thesis by blast
qed

text \<open>The same stream, once as the file named on the command line, once on standard input.\<close>

theorem C5_fixed_removal_list_witness:
  "run_stdout (main \<lparr>argv = [''pycsv.py'', ''in.csv''],
                     open_file = (\<lambda>path. Opened [[''A'', ''E1''], [''1'', ''2'']]),
                     stdin = []\<rparr>)
     = fst (remove_columns (DictReader_init [[''A'', ''E1''], [''1'', ''2'']]) []
         [''E1'', ''E2'', ''E3'', ''E4'', ''E5'', ''E6'', ''C1'', ''C2'', ''C3'', ''C4'', ''C5'', ''C6''])
   \<and> run_stdout (main \<lparr>argv = [''pycsv.py'', ''missing.csv''],
                     open_file = (\<lambda>path. FileNotFoundError),
                     stdin = [[''A'', ''E1''], [''1'', ''2'']]\<rparr>)
     = fst (remove_columns (DictReader_init [[''A'', ''E1''], [''1'', ''2'']]) []
         [''E1'', ''E2'', ''E3'', ''E4'', ''E5'', ''E6'', ''C1'', ''C2'', ''C3'', ''C4'', ''C5'', ''C6''])"
proof -
  let ?e1 = "\<lparr>argv = [''pycsv.py'', ''in.csv''],
              open_file = (\<lambda>path. Opened [[''A'', ''E1''], [''1'', ''2'']]),
              stdin = []\<rparr>"
  let ?e2 = "\<lparr>argv = [''pycsv.py'', ''missing.csv''],
              open_file = (\<lambda>path. FileNotFoundError),
              stdin = [[''A'', ''E1''], [''1'', ''2'']]\<rparr>"
  have a1: "2 \<le> length (argv ?e1)" and a2: "2 \<le> length (argv ?e2)"
    by simp_all
  from C5_fixed_removal_list [OF a1, THEN conjunct2, THEN conjunct2, THEN conjunct1]
  have one: "run_stdout (main ?e1)
      = fst (remove_columns (DictReader_init [[''A'', ''E1''], [''1'', ''2'']]) []
          [''E1'', ''E2'', ''E3'', ''E4'', ''E5'', ''E6'', ''C1'', ''C2'', ''C3'', ''C4'', ''C5'', ''C6''])"
    by simp
  from C5_fixed_removal_list [OF a2, THEN conjunct2, THEN conjunct2, THEN conjunct2]
  have two: "run_stdout (main ?e2)
      = fst (remove_columns (DictReader_init [[''A'', ''E1''], [''1'', ''2'']]) []
          [''E1'', ''E2'', ''E3'', ''E4'', ''E5'', ''E6'', ''C1'', ''C2'', ''C3'', ''C4'', ''C5'', ''C6''])"
    by simp
  from one two show ?thesis by (rule conjI)
qed


section \<open>An empty removal list\<close>

text \<open>
  C6. With an empty removal list and a well-formed input (a header that is not empty and
  has distinct names, and data rows with exactly as many cells as the header) the rows
  written are the records read, header first, cell for cell, and nothing is raised. The
  comparison is between the records \<^verbatim>\<open>csv.reader\<close> yields and the rows handed to
  \<^verbatim>\<open>csv.writer\<close>.
\<close>

theorem C6_empty_removal_identity:
  assumes "distinct header" and "header \<noteq> []"
    and "\<forall>row \<in> set rows. length row = length header"
  shows "remove_columns (DictReader_init (header # rows)) [] []
           = (map (map PyStr) (header # rows), None)"
proof -
  have cells: "map (\<lambda>col. dict_get (row_dict header row) (PyStr col) PyNone) header = map PyStr row"
    if "length row = length header" for row
  proof (rule nth_equalityI)
    show "length (map (\<lambda>col. dict_get (row_dict header row) (PyStr col) PyNone) header)
        = length (map PyStr row)"
      using that by simp
  next
    fix i
    assume "i < length (map (\<lambda>col. dict_get (row_dict header row) (PyStr col) PyNone) header)"
    then have i: "i < length header" "i < length row" using that by simp_all
    with cell_present [OF assms(1) i]
    show "map (\<lambda>col. dict_get (row_dict header row) (PyStr col) PyNone) header ! i
        = map PyStr row ! i"
      by simp
  qed
  from assms(2,3) have nb: "filter (\<lambda>row. row \<noteq> []) rows = rows"
    by (auto simp: filter_id_conv)
  have "map (\<lambda>row. map (\<lambda>col. dict_get (row_dict header row) (PyStr col) PyNone) header) rows
      = map (map PyStr) rows"
    using assms(3) cells by simp
  with nb show ?thesis
    by (simp add: remove_columns_run)
qed

text \<open>Header \<^verbatim>\<open>A,B\<close> and a row whose first cell contains a comma.\<close>

theorem C6_empty_removal_identity_witness:
  "remove_columns (DictReader_init [[''A'', ''B''], [''1,2'', ''3'']]) [] []
     = ([[PyStr ''A'', PyStr ''B''], [PyStr ''1,2'', PyStr ''3'']], None)"
  using C6_empty_removal_identity [of "[''A'', ''B'']" "[[''1,2'', ''3'']]"]
  by simp


section \<open>A path that does not exist\<close>

text \<open>
  C7. When \<^verbatim>\<open>open\<close> raises \<^verbatim>\<open>FileNotFoundError\<close> for the path argument, the stream read
  is standard input and the run is the run of the filter on standard input with
  \<open>remove_list\<close>: it exits with status 0 whenever standard input has a header record
  (with no record at all it ends as an empty file does). The command line beyond the path
  has no influence: any other argument list with the same path gives the same run.
\<close>

theorem C7_missing_file_reads_stdin:
  assumes "2 \<le> length (argv e)" and "open_file e (argv e ! 1) = FileNotFoundError"
  shows "infile_of e = Inr (stdin e)
       \<and> main e = process (stdin e)
       \<and> run_stdout (main e) = fst (remove_columns (DictReader_init (stdin e)) [] remove_list)
       \<and> run_outcome (main e) = (case stdin e of [] \<Rightarrow> Uncaught TypeError | header # rows \<Rightarrow> Exit 0)
       \<and> (\<forall>args. 2 \<le> length args \<and> args ! 1 = argv e ! 1 \<longrightarrow> main (e\<lparr>argv := args\<rparr>) = main e)"
proof -
  from assms(2) have inf: "infile_of e = Inr (stdin e)"
    by (simp add: infile_of_def)
  with assms(1) have m: "main e = process (stdin e)"
    by (simp add: main_two_args)
  have other: "main (e\<lparr>argv := args\<rparr>) = main e" if "2 \<le> length args" "args ! 1 = argv e ! 1" for args
  proof -
    from that(2) assms(2) have "infile_of (e\<lparr>argv := args\<rparr>) = Inr (stdin e)"
      by (simp add: infile_of_def)
    with that(1) have "main (e\<lparr>argv := args\<rparr>) = process (stdin e)"
      by (simp add: main_two_args)
    with m show ?thesis by simp
  qed
  from inf m other show ?thesis
    by (simp add: process_stdout process_outcome)
qed

text \<open>Two extra arguments naming columns remove nothing more than \<open>remove_list\<close> does.\<close>

theorem C7_missing_file_reads_stdin_witness:
  "main \<lparr>argv = [''pycsv.py'', ''missing.csv'', ''A'', ''B''],
         open_file = (\<lambda>path. FileNotFoundError),
         stdin = [[''A'', ''E1''], [''1'', ''2'']]\<rparr>
     = \<lparr>run_stdout = [[PyStr ''A''], [PyStr ''1'']], run_stderr = [], run_outcome = Exit 0\<rparr>"
proof -
  let ?e = "\<lparr>argv = [''pycsv.py'', ''missing.csv'', ''A'', ''B''],
             open_file = (\<lambda>path. FileNotFoundError),
             stdin = [[''A'', ''E1''], [''1'', ''2'']]\<rparr>"
  have a: "2 \<le> length (argv ?e)" and b: "open_file ?e (argv ?e ! 1) = FileNotFoundError"
    by simp_all
  from C7_missing_file_reads_stdin [OF a b, THEN conjunct2, THEN conjunct1]
  have "main ?e = process [[''A'', ''E1''], [''1'', ''2'']]"
    by simp
  then show ?thesis
    by (simp add: process_header remove_columns_run remove_list_def
        row_dict_def dict_of_def dict_get_def)
qed


section \<open>Exit status\<close>

text \<open>
  C8. With no command-line argument the run writes nothing to standard output, prints the
  usage line to standard error and exits with status 1. With an argument the script prints
  nothing to standard error itself, and the run ends with exit status 0 exactly when no
  exception escapes, that is when the stream could be chosen and has a header record.
\<close>

theorem C8_exit_status:
  "(length (argv e) < 2 \<longrightarrow>
      main e = \<lparr>run_stdout = [], run_stderr = [''Usage: script.py [file]''], run_outcome = Exit 1\<rparr>)
   \<and> (2 \<le> length (argv e) \<longrightarrow>
        run_stderr (main e) = []
        \<and> run_outcome (main e) =
            (case infile_of e of
               Inl err \<Rightarrow> Uncaught err
             | Inr [] \<Rightarrow> Uncaught TypeError
             | Inr (header # rows) \<Rightarrow> Exit 0))"
proof -
  have usage: "main e
      = \<lparr>run_stdout = [], run_stderr = [''Usage: script.py [file]''], run_outcome = Exit 1\<rparr>"
    if "length (argv e) < 2"
    using that by (simp add: main_def)
  have quiet: "run_stderr (main e) = []" if "2 \<le> length (argv e)"
  proof (cases "infile_of e")
    case (Inl err)
    with that show ?thesis by (simp add: main_two_args)
  next
    case (Inr infile)
    with that show ?thesis
      by (cases infile) (simp_all add: main_two_args process_header process_empty)
  qed
  have status: "run_outcome (main e) =
      (case infile_of e of
         Inl err \<Rightarrow> Uncaught err
       | Inr [] \<Rightarrow> Uncaught TypeError
       | Inr (header # rows) \<Rightarrow> Exit 0)" if "2 \<le> length (argv e)"
    using that by (simp add: main_two_args process_outcome split: sum.splits)
  from usage quiet status show ?thesis by blast
qed

text \<open>A run without an argument, and a run on a file with one data row.\<close>

theorem C8_exit_status_witness:
  "main \<lparr>argv = [''pycsv.py''], open_file = (\<lambda>path. FileNotFoundError), stdin = []\<rparr>
     = \<lparr>run_stdout = [], run_stderr = [''Usage: script.py [file]''], run_outcome = Exit 1\<rparr>
   \<and> run_outcome (main \<lparr>argv = [''pycsv.py'', ''in.csv''],
                          open_file = (\<lambda>path. Opened [[''A'', ''E1''], [''1'', ''2'']]),
                          stdin = []\<rparr>) = Exit 0"
proof -
  let ?e0 = "\<lparr>argv = [''pycsv.py''], open_file = (\<lambda>path. FileNotFoundError), stdin = []\<rparr>"
  let ?e1 = "\<lparr>argv = [''pycsv.py'', ''in.csv''],
              open_file = (\<lambda>path. Opened [[''A'', ''E1''], [''1'', ''2'']]),
              stdin = []\<rparr>"
  from C8_exit_status [of ?e0, THEN conjunct1]
  have none: "main ?e0
      = \<lparr>run_stdout = [], run_stderr = [''Usage: script.py [file]''], run_outcome = Exit 1\<rparr>"
    by simp
  from C8_exit_status [of ?e1, THEN conjunct2]
  have finished: "run_outcome (main ?e1) = Exit 0"
    by (simp add: infile_of_def)
  from none finished show ?thesis by (rule conjI)
qed


section \<open>A row longer than the header\<close>

text \<open>
  C9. Let a data row have more cells than the header. The run raises nothing. The
  dictionary passed to \<^verbatim>\<open>writerow\<close> for that row is the one that the row cut down to the
  length of the header gives: the surplus cells, kept by the reader under the key
  \<^verbatim>\<open>None\<close>, are never looked up. When the header is not empty, the whole output is the
  output for the input with that row cut down.
\<close>

theorem C9_surplus_cells_dropped:
  assumes "length header < length row"
  shows "snd (remove_columns (DictReader_init (header # before @ row # after)) [] removal) = None
       \<and> filtered_row (row_dict header row) (filter (\<lambda>col. col \<notin> set removal) header) []
           = filtered_row (row_dict header (take (length header) row))
               (filter (\<lambda>col. col \<notin> set removal) header) []
       \<and> (header \<noteq> [] \<longrightarrow>
            remove_columns (DictReader_init (header # before @ row # after)) [] removal
              = remove_columns (DictReader_init (header # before @ take (length header) row # after))
                  [] removal)"
proof -
  from assms have le: "length header \<le> length row" by simp
  have ok: "snd (remove_columns (DictReader_init (header # before @ row # after)) [] removal) = None"
    by (simp add: remove_columns_run)
  have same: "filtered_row (row_dict header row) (filter (\<lambda>col. col \<notin> set removal) header) []
      = filtered_row (row_dict header (take (length header) row))
          (filter (\<lambda>col. col \<notin> set removal) header) []"
    by (rule filtered_row_cong) (simp add: row_dict_take [OF le])
  have whole: "remove_columns (DictReader_init (header # before @ row # after)) [] removal
      = remove_columns (DictReader_init (header # before @ take (length header) row # after))
          [] removal"
    if "header \<noteq> []"
  proof -
    from assms have "row \<noteq> []" by auto
    moreover from that assms have "take (length header) row \<noteq> []" by auto
    ultimately show ?thesis
      by (simp add: remove_columns_run cell_take [OF le])
  qed
  from ok same whole show ?thesis by blast
qed

text \<open>Header \<^verbatim>\<open>A,E1\<close> and the row \<^verbatim>\<open>1,2,3,4\<close>.\<close>

theorem C9_surplus_cells_dropped_witness:
  "snd (remove_columns (DictReader_init [[''A'', ''E1''], [''1'', ''2'', ''3'', ''4'']]) [] remove_list)
     = None
   \<and> remove_columns (DictReader_init [[''A'', ''E1''], [''1'', ''2'', ''3'', ''4'']]) [] remove_list
     = remove_columns (DictReader_init [[''A'', ''E1''], [''1'', ''2'']]) [] remove_list"
proof -
  have longer: "length [''A'', ''E1''] < length [''1'', ''2'', ''3'', ''4'']"
    by simp
  note surplus = C9_surplus_cells_dropped [OF longer, of "[]" "[]" remove_list]
  from surplus [THEN conjunct1]
  have quiet: "snd (remove_columns (DictReader_init [[''A'', ''E1''], [''1'', ''2'', ''3'', ''4'']])
      [] remove_list) = None"
    by simp
  from surplus [THEN conjunct2, THEN conjunct2]
  have same: "remove_columns (DictReader_init [[''A'', ''E1''], [''1'', ''2'', ''3'', ''4'']]) [] remove_list
      = remove_columns (DictReader_init [[''A'', ''E1''], [''1'', ''2'']]) [] remove_list"
    by simp
  from quiet same show ?thesis by (rule conjI)
qed


section \<open>The output depends on the stream alone\<close>

text \<open>
  C10. Two runs with a path argument that read the same stream, whatever their command
  lines, are the same run: the same rows on standard output, namely those
  \<^verbatim>\<open>remove_columns\<close> writes for that stream and \<open>remove_list\<close>, and the same outcome.
\<close>

theorem C10_output_depends_on_stream_only:
  assumes "2 \<le> length (argv e1)" and "2 \<le> length (argv e2)"
    and "infile_of e1 = Inr infile" and "infile_of e2 = Inr infile"
  shows "main e1 = main e2
       \<and> run_stdout (main e1) = fst (remove_columns (DictReader_init infile) [] remove_list)"
  using assms by (simp add: main_two_args process_stdout)

text \<open>Standard input read with and without extra arguments after the path.\<close>

theorem C10_output_depends_on_stream_only_witness:
  "main \<lparr>argv = [''pycsv.py'', ''missing.csv'', ''A'', ''B''],
         open_file = (\<lambda>path. FileNotFoundError),
         stdin = [[''A'', ''E1''], [''1'', ''2'']]\<rparr>
     = main \<lparr>argv = [''pycsv.py'', ''missing.csv''],
              open_file = (\<lambda>path. FileNotFoundError),
              stdin = [[''A'', ''E1''], [''1'', ''2'']]\<rparr>"
proof -
  let ?e1 = "\<lparr>argv = [''pycsv.py'', ''missing.csv'', ''A'', ''B''],
              open_file = (\<lambda>path. FileNotFoundError),
              stdin = [[''A'', ''E1''], [''1'', ''2'']]\<rparr>"
  let ?e2 = "\<lparr>argv = [''pycsv.py'', ''missing.csv''],
              open_file = (\<lambda>path. FileNotFoundError),
              stdin = [[''A'', ''E1''], [''1'', ''2'']]\<rparr>"
  have a1: "2 \<le> length (argv ?e1)" and a2: "2 \<le> length (argv ?e2)"
    by simp_all
  have s1: "infile_of ?e1 = Inr [[''A'', ''E1''], [''1'', ''2'']]"
    and s2: "infile_of ?e2 = Inr [[''A'', ''E1''], [''1'', ''2'']]"
    by (simp_all add: infile_of_def)
  from C10_output_depends_on_stream_only [OF a1 a2 s1 s2] show ?thesis
    by (rule conjunct1)
qed

end
